theory Spec2Isabelle
  imports Complex_Main
begin

section \<open>JavaScript values used by index.ts\<close>

text \<open>
  A JavaScript number is modelled by the real number it denotes; NaN, the one non-number
  the handlers can produce from numeric input, is \<open>None\<close> of \<open>real option\<close>. The
  infinities and the sign of zero are outside the model. An instant (\<open>Date\<close>) is its
  time value, an integer count of milliseconds since the epoch; the text that
  \<open>toISOString\<close> renders is represented by that instant. The range of a \<open>Date\<close> (a time
  value beyond 8.64e15 ms is invalid and makes \<open>toISOString\<close> throw) is not modelled: a
  clock value less a lookback of at most 365 days stays inside it.

  What the engine computes is not fixed by index.ts: the rounding of double arithmetic,
  the values of \<open>Math.sin\<close>, \<open>Math.cos\<close>, \<open>Math.sqrt\<close> and \<open>Math.atan2\<close>, and the
  case mapping of \<open>toLowerCase\<close>. These are the fields of an \<open>Engine\<close>, a parameter of
  every function that uses them. Comparisons of numbers are exact in double arithmetic,
  and so is the arithmetic of the integers that index.ts writes as literals or reads from
  the clock; those are computed here directly.
\<close>

record Engine =
  fl_add :: "real \<Rightarrow> real \<Rightarrow> real"
  fl_sub :: "real \<Rightarrow> real \<Rightarrow> real"
  fl_mul :: "real \<Rightarrow> real \<Rightarrow> real"
  fl_div :: "real \<Rightarrow> real \<Rightarrow> real"
  Math_PI :: real
  Math_sin :: "real \<Rightarrow> real"
  Math_cos :: "real \<Rightarrow> real"
  fl_sqrt :: "real \<Rightarrow> real"
  Math_atan2 :: "real \<Rightarrow> real \<Rightarrow> real"
  toLowerCase :: "string \<Rightarrow> string"

definition js_trunc :: "real \<Rightarrow> int" where
  \<comment> \<open>ToIntegerOrInfinity on a finite number: truncation toward zero.\<close>
  "js_trunc x = (if 0 \<le> x then \<lfloor>x\<rfloor> else \<lceil>x\<rceil>)"

definition new_Date :: "real \<Rightarrow> int" where
  \<comment> \<open>\<open>new Date(t)\<close>: the time value is the argument truncated to whole milliseconds.\<close>
  "new_Date t = js_trunc t"

definition Math_round :: "real \<Rightarrow> int" where
  "Math_round x = \<lfloor>x + 1 / 2\<rfloor>"

definition Math_sqrt :: "Engine \<Rightarrow> real \<Rightarrow> real option" where
  \<comment> \<open>\<open>Math.sqrt\<close> of a negative number is NaN.\<close>
  "Math_sqrt e x = (if x < 0 then None else Some (fl_sqrt e x))"

definition num_le :: "real option \<Rightarrow> real \<Rightarrow> bool" where
  \<comment> \<open>\<open>a <= b\<close>: every comparison with NaN is false.\<close>
  "num_le a b = (case a of None \<Rightarrow> False | Some x \<Rightarrow> x \<le> b)"

definition num_ge :: "real option \<Rightarrow> real \<Rightarrow> bool" where
  \<comment> \<open>\<open>a >= b\<close> where \<open>a\<close> may be \<open>null\<close>; \<open>null\<close> converts to 0.\<close>
  "num_ge a b = (case a of None \<Rightarrow> 0 \<ge> b | Some x \<Rightarrow> x \<ge> b)"

definition num_sub :: "real option \<Rightarrow> real option \<Rightarrow> real option" where
  \<comment> \<open>\<open>a - b\<close>: NaN if either operand is.\<close>
  "num_sub a b = (case a of None \<Rightarrow> None | Some x \<Rightarrow> (case b of None \<Rightarrow> None | Some y \<Rightarrow> Some (x - y)))"

definition truthy :: "string option \<Rightarrow> bool" where
  \<comment> \<open>\<open>if (s)\<close> on an optional string: \<open>undefined\<close> and the empty string are falsy.\<close>
  "truthy s = (case s of None \<Rightarrow> False | Some t \<Rightarrow> t \<noteq> [])"

fun String_includes :: "string \<Rightarrow> string \<Rightarrow> bool" where
  "String_includes [] sub = (sub = [])"
| "String_includes (c # cs) sub = (take (length sub) (c # cs) = sub \<or> String_includes cs sub)"

definition slice0 :: "real \<Rightarrow> 'a list \<Rightarrow> 'a list" where
  \<comment> \<open>\<open>xs.slice(0, e)\<close>: \<open>e\<close> is truncated; a negative \<open>e\<close> counts from the end.\<close>
  "slice0 e xs =
     (let k = js_trunc e
      in if k < 0 then take (nat (int (length xs) + k)) xs else take (nat k) xs)"

fun insort_cmp :: "('a \<Rightarrow> 'a \<Rightarrow> real option) \<Rightarrow> 'a \<Rightarrow> 'a list \<Rightarrow> 'a list" where
  "insort_cmp cmp x [] = [x]"
| "insort_cmp cmp x (y # ys) =
     (if (case cmp x y of None \<Rightarrow> 0 | Some c \<Rightarrow> c) \<le> 0 then x # y # ys
      else y # insort_cmp cmp x ys)"

definition Array_sort :: "('a \<Rightarrow> 'a \<Rightarrow> real option) \<Rightarrow> 'a list \<Rightarrow> 'a list" where
  \<comment> \<open>\<open>xs.sort(cmp)\<close>: a stable sort; a comparator result of NaN counts as 0. Each
      element is placed before the first later element it does not exceed. Only the sign
      of the comparator's result is read, and the difference of two doubles has the sign
      of their exact difference.\<close>
  "Array_sort cmp xs = foldr (insort_cmp cmp) xs []"

section \<open>Upstream payloads\<close>

text \<open>
  A payload is modelled as decoded into the shape of its upstream schema. The fields that
  index.ts reads through an optional chain (\<open>country\<close>, \<open>vName\<close>), the magnitude and the
  fields it only copies may be \<open>null\<close>. A payload of another shape, on which a handler
  would throw a \<open>TypeError\<close>, is outside the model.
\<close>

record Volcano =
  vnum :: int
  vName :: "string option"
  country :: "string option"
  subregion :: string
  latitude :: real
  longitude :: real
  elevation_m :: real
  obsAbbr :: "string option"
  webpage :: "string option"

record Properties =
  mag :: "real option"
  magType :: string
  place :: string
  time :: int
  tsunami :: int
  alert :: "string option"
  sig :: "int option"
  felt :: "int option"
  url :: string

record Feature =
  fid :: string
  properties :: Properties
  coordinates :: "real list"

record FeatureCollection =
  metadata_count :: int
  features :: "Feature list"

section \<open>fetchJSON\<close>

datatype error = ApiError nat | FetchFailed | JsonSyntaxError

record 'a Response =
  ok :: bool
  status :: nat
  json :: "'a option"

definition fetchJSON :: "'a Response option \<Rightarrow> error + 'a" where
  \<comment> \<open>The argument is what \<open>fetch(url)\<close> settles to: \<open>None\<close> when it rejects.
      A body that does not parse makes \<open>response.json()\<close> reject.\<close>
  "fetchJSON fetched =
     (case fetched of
        None \<Rightarrow> Inl FetchFailed
      | Some response \<Rightarrow>
          if \<not> ok response then Inl (ApiError (status response))
          else (case json response of None \<Rightarrow> Inl JsonSyntaxError | Some v \<Rightarrow> Inr v))"

definition Promise_all :: "bool \<Rightarrow> error + 'a \<Rightarrow> error + 'b \<Rightarrow> error + ('a \<times> 'b)" where
  \<comment> \<open>\<open>Promise.all([p, q])\<close>: both values, or the rejection that came first.\<close>
  "Promise_all first_settles_first p q =
     (case p of
        Inl e \<Rightarrow> (case q of Inl e' \<Rightarrow> Inl (if first_settles_first then e else e') | Inr _ \<Rightarrow> Inl e)
      | Inr a \<Rightarrow> (case q of Inl e' \<Rightarrow> Inl e' | Inr b \<Rightarrow> Inr (a, b)))"

section \<open>Outbound queries\<close>

text \<open>
  A URL built by a template literal that interpolates only numbers and instants is its
  text up to the question mark and the ordered list of \<open>key=value\<close> pairs after it: the
  text of a number or of an instant holds no separator. A value written literally in the
  template is \<open>QText\<close>; an interpolated number or instant keeps its value. The URL of
  the lookup interpolates the caller's text as it is, and is kept as text.
\<close>

datatype QValue = QText string | QNumber real | QInstant int

record Url =
  base :: string
  params :: "(string \<times> QValue) list"

definition usgs_query :: string where
  "usgs_query = ''https://earthquake.usgs.gov/fdsnws/event/1/query''"

definition volcanoUrl :: string where
  "volcanoUrl = ''https://volcanoes.usgs.gov/vsc/api/volcanoApi/volcanoesGVP''"





record SearchInput =
  s_latitude :: "real option"
  s_longitude :: "real option"
  s_radiusKm :: real
  s_minMagnitude :: real
  s_maxMagnitude :: "real option"
  s_days :: real
  s_limit :: real

definition search_url :: "Engine \<Rightarrow> int \<Rightarrow> SearchInput \<Rightarrow> Url" where
  "search_url e now inp =
     (let startTime = new_Date (fl_sub e (real_of_int now)
            (fl_mul e (fl_mul e (fl_mul e (fl_mul e (s_days inp) 24) 60) 60) 1000));
          url = [(''format'', QText ''geojson''), (''starttime'', QInstant startTime),
                 (''minmagnitude'', QNumber (s_minMagnitude inp)),
                 (''limit'', QNumber (s_limit inp)), (''orderby'', QText ''time'')];
          url = (if s_latitude inp \<noteq> None \<and> s_longitude inp \<noteq> None
                 then url @ [(''latitude'', QNumber (the (s_latitude inp))),
                             (''longitude'', QNumber (the (s_longitude inp))),
                             (''maxradiuskm'', QNumber (s_radiusKm inp))]
                 else url);
          url = (if s_maxMagnitude inp \<noteq> None
                 then url @ [(''maxmagnitude'', QNumber (the (s_maxMagnitude inp)))]
                 else url)
      in \<lparr>base = usgs_query, params = url\<rparr>)"





record ReportInput =
  r_latitude :: real
  r_longitude :: real
  r_radiusKm :: real

definition earthquakeUrl :: "int \<Rightarrow> ReportInput \<Rightarrow> Url" where
  "earthquakeUrl now inp =
     (let thirtyDaysAgo = new_Date (real_of_int now - 30 * 24 * 60 * 60 * 1000)
      in \<lparr>base = usgs_query,
          params = [(''format'', QText ''geojson''), (''starttime'', QInstant thirtyDaysAgo),
                    (''latitude'', QNumber (r_latitude inp)),
                    (''longitude'', QNumber (r_longitude inp)),
                    (''maxradiuskm'', QNumber (r_radiusKm inp)),
                    (''minmagnitude'', QText ''2''), (''limit'', QText ''50''),
                    (''orderby'', QText ''magnitude'')]\<rparr>)"

definition has_param :: "Url \<Rightarrow> string \<Rightarrow> bool" where
  "has_param u k = (k \<in> set (map fst (params u)))"


section \<open>The world a handler runs in\<close>

record World =
  seismic :: "Url \<Rightarrow> FeatureCollection Response option"
  volcanoes :: "Volcano list Response option"

section \<open>volcanoSearch\<close>

record VolcanoSearchInput =
  vs_country :: "string option"
  vs_name :: "string option"
  vs_limit :: real

record VolcanoEntry =
  ve_id :: int
  ve_name :: "string option"
  ve_country :: "string option"
  ve_region :: string
  ve_coordinates :: "real \<times> real"
  ve_elevation :: "real \<times> string"
  ve_observatory :: "string option"
  ve_infoUrl :: "string option"

record VolcanoSearchOutput =
  totalMatches :: nat
  returned :: nat
  searchParams :: "string option \<times> string option"
  volcanoes_found :: "VolcanoEntry list"
  vs_fetchedAt :: int

definition field_includes :: "Engine \<Rightarrow> string option \<Rightarrow> string \<Rightarrow> bool" where
  \<comment> \<open>\<open>field?.toLowerCase().includes(wanted.toLowerCase())\<close>: a \<open>null\<close> or missing
      field ends the optional chain with \<open>undefined\<close>, which the filter reads as false.\<close>
  "field_includes e field wanted =
     (case field of
        None \<Rightarrow> False
      | Some s \<Rightarrow> String_includes (toLowerCase e s) (toLowerCase e wanted))"

definition volcano_entry :: "Volcano \<Rightarrow> VolcanoEntry" where
  "volcano_entry v =
     \<lparr>ve_id = vnum v, ve_name = vName v, ve_country = country v, ve_region = subregion v,
      ve_coordinates = (latitude v, longitude v), ve_elevation = (elevation_m v, '' m''),
      ve_observatory = obsAbbr v, ve_infoUrl = webpage v\<rparr>"

definition volcanoSearch ::
  "Engine \<Rightarrow> World \<Rightarrow> int \<Rightarrow> VolcanoSearchInput \<Rightarrow> error + VolcanoSearchOutput" where
  "volcanoSearch e world now inp =
     (case fetchJSON (volcanoes world) of
        Inl err \<Rightarrow> Inl err
      | Inr data \<Rightarrow>
          (let filtered = data;
               filtered = (if truthy (vs_country inp)
                           then filter (\<lambda>v. field_includes e (country v) (the (vs_country inp))) filtered
                           else filtered);
               filtered = (if truthy (vs_name inp)
                           then filter (\<lambda>v. field_includes e (vName v) (the (vs_name inp))) filtered
                           else filtered);
               results = slice0 (vs_limit inp) filtered
           in Inr \<lparr>totalMatches = length filtered, returned = length results,
                    searchParams = (vs_country inp, vs_name inp),
                    volcanoes_found = map volcano_entry results,
                    vs_fetchedAt = now\<rparr>))"

section \<open>report\<close>

definition toRad :: "Engine \<Rightarrow> real \<Rightarrow> real" where
  "toRad e deg = fl_div e (fl_mul e deg (Math_PI e)) 180"

definition haversine :: "Engine \<Rightarrow> real \<Rightarrow> real \<Rightarrow> real \<Rightarrow> real \<Rightarrow> real option" where
  \<comment> \<open>A NaN from either square root goes through \<open>Math.atan2\<close> and the products.\<close>
  "haversine e lat1 lon1 lat2 lon2 =
     (let dLat = toRad e (fl_sub e lat2 lat1);
          dLon = toRad e (fl_sub e lon2 lon1);
          a = fl_add e
                (fl_mul e (Math_sin e (fl_div e dLat 2)) (Math_sin e (fl_div e dLat 2)))
                (fl_mul e
                   (fl_mul e
                      (fl_mul e (Math_cos e (toRad e lat1)) (Math_cos e (toRad e lat2)))
                      (Math_sin e (fl_div e dLon 2)))
                   (Math_sin e (fl_div e dLon 2)))
      in case Math_sqrt e a of
           None \<Rightarrow> None
         | Some y \<Rightarrow> (case Math_sqrt e (fl_sub e 1 a) of
                       None \<Rightarrow> None
                     | Some x \<Rightarrow> Some (fl_mul e (fl_mul e 6371 2) (Math_atan2 e y x))))"

record RankedVolcano = Volcano +
  distanceKm :: "real option"

definition with_distanceKm :: "Volcano \<Rightarrow> real option \<Rightarrow> RankedVolcano" where
  \<comment> \<open>\<open>{...v, distanceKm: d}\<close>\<close>
  "with_distanceKm v d = Volcano.extend v (RankedVolcano.fields d)"

definition rankVolcanoes ::
  "Engine \<Rightarrow> nat \<Rightarrow> Volcano list \<Rightarrow> real \<Rightarrow> real \<Rightarrow> real \<Rightarrow> RankedVolcano list" where
  \<comment> \<open>The map, filter, sort and slice that compute \<open>nearbyVolcanoes\<close>, with the
      bound of the slice as a parameter.\<close>
  "rankVolcanoes e limit volcanoData latitude' longitude' radiusKm =
     take limit
       (Array_sort (\<lambda>a b. num_sub (distanceKm a) (distanceKm b))
          (filter (\<lambda>v. num_le (distanceKm v) radiusKm)
             (map (\<lambda>v. with_distanceKm v (haversine e latitude' longitude' (latitude v) (longitude v)))
                volcanoData)))"

definition nearbyVolcanoes ::
  "Engine \<Rightarrow> Volcano list \<Rightarrow> real \<Rightarrow> real \<Rightarrow> real \<Rightarrow> RankedVolcano list" where
  "nearbyVolcanoes e volcanoData latitude' longitude' radiusKm =
     rankVolcanoes e 20 volcanoData latitude' longitude' radiusKm"

definition significantQuakes :: "Feature list \<Rightarrow> Feature list" where
  "significantQuakes fs = filter (\<lambda>f. num_ge (mag (properties f)) 4) fs"

datatype RiskLevel = MINIMAL | LOW | MODERATE | HIGH

definition riskLevel :: "nat \<Rightarrow> RiskLevel" where
  \<comment> \<open>The conditional chain on \<open>significantQuakes.length\<close>.\<close>
  "riskLevel n =
     (if n > 10 then HIGH
      else if n > 3 then MODERATE
      else if n > 0 then LOW
      else MINIMAL)"

fun level_rank :: "RiskLevel \<Rightarrow> nat" where
  \<comment> \<open>The position of a level in the order MINIMAL, LOW, MODERATE, HIGH.\<close>
  "level_rank MINIMAL = 0"
| "level_rank LOW = 1"
| "level_rank MODERATE = 2"
| "level_rank HIGH = 3"

record RiskAssessment =
  ra_level :: RiskLevel
  ra_earthquakesLast30Days :: int
  ra_significantQuakes :: nat
  ra_nearbyVolcanoes :: nat

record QuakeEntry =
  qe_id :: string
  qe_magnitude :: "real option"
  qe_location :: string
  qe_time :: int
  qe_depth :: "real option \<times> string"

record NearbyEntry =
  ne_name :: "string option"
  ne_country :: "string option"
  ne_distanceKm :: "int option"
  ne_elevation :: "real \<times> string"
  ne_observatory :: "string option"

record ReportOutput =
  out_location :: "real \<times> real"
  out_radiusKm :: real
  out_riskAssessment :: RiskAssessment
  out_recentEarthquakes :: "QuakeEntry list"
  out_nearbyVolcanoes :: "NearbyEntry list"
  out_dataSources :: "string list"
  out_fetchedAt :: int

definition index_opt :: "'a list \<Rightarrow> nat \<Rightarrow> 'a option" where
  \<comment> \<open>\<open>xs[i]\<close>: \<open>undefined\<close> out of range.\<close>
  "index_opt xs i = (if i < length xs then Some (xs ! i) else None)"

definition quake_entry :: "Feature \<Rightarrow> QuakeEntry" where
  "quake_entry f =
     \<lparr>qe_id = fid f, qe_magnitude = mag (properties f), qe_location = place (properties f),
      qe_time = new_Date (real_of_int (time (properties f))),
      qe_depth = (index_opt (coordinates f) 2, '' km'')\<rparr>"

definition nearby_entry :: "RankedVolcano \<Rightarrow> NearbyEntry" where
  "nearby_entry v =
     \<lparr>ne_name = vName v, ne_country = country v,
      ne_distanceKm = map_option Math_round (distanceKm v),
      ne_elevation = (elevation_m v, '' m''), ne_observatory = obsAbbr v\<rparr>"

definition report ::
  "Engine \<Rightarrow> World \<Rightarrow> bool \<Rightarrow> int \<Rightarrow> ReportInput \<Rightarrow> error + ReportOutput" where
  \<comment> \<open>The flag says which of the two fetches settles first.\<close>
  "report e world seismic_first now inp =
     (case Promise_all seismic_first
             (fetchJSON (seismic world (earthquakeUrl now inp)))
             (fetchJSON (volcanoes world)) of
        Inl err \<Rightarrow> Inl err
      | Inr (earthquakeData, volcanoData) \<Rightarrow>
          (let nearby = nearbyVolcanoes e volcanoData (r_latitude inp) (r_longitude inp) (r_radiusKm inp);
               significant = significantQuakes (features earthquakeData)
           in Inr \<lparr>out_location = (r_latitude inp, r_longitude inp),
                    out_radiusKm = r_radiusKm inp,
                    out_riskAssessment =
                      \<lparr>ra_level = riskLevel (length significant),
                       ra_earthquakesLast30Days = metadata_count earthquakeData,
                       ra_significantQuakes = length significant,
                       ra_nearbyVolcanoes = length nearby\<rparr>,
                    out_recentEarthquakes = map quake_entry (slice0 15 (features earthquakeData)),
                    out_nearbyVolcanoes = map nearby_entry nearby,
                    out_dataSources = [''USGS Earthquake Hazards Program'',
                                       ''USGS Volcano Hazards Program''],
                    out_fetchedAt = now\<rparr>))"

section \<open>Worked inputs\<close>

definition atan2_exact :: "real \<Rightarrow> real \<Rightarrow> real" where
  "atan2_exact y x =
     (if 0 < x then arctan (y / x)
      else if x < 0 then (if 0 \<le> y then arctan (y / x) + pi else arctan (y / x) - pi)
      else if 0 < y then pi / 2
      else if y < 0 then - (pi / 2)
      else 0)"

definition lower_ascii :: "string \<Rightarrow> string" where
  "lower_ascii s =
     map (\<lambda>c. let n = (of_char c :: nat) in if 65 \<le> n \<and> n \<le> 90 then char_of (n + 32) else c) s"

definition exact_engine :: Engine where
  \<comment> \<open>An engine that does not round and lowers the ASCII letters, for the worked
      examples.\<close>
  "exact_engine =
     \<lparr>fl_add = (+), fl_sub = (-), fl_mul = (*), fl_div = (/), Math_PI = pi,
      Math_sin = sin, Math_cos = cos, fl_sqrt = sqrt, Math_atan2 = atan2_exact,
      toLowerCase = lower_ascii\<rparr>"

definition volcano_at :: "string \<Rightarrow> real \<Rightarrow> real \<Rightarrow> Volcano" where
  \<comment> \<open>A volcano record with a name and a position, for the worked examples.\<close>
  "volcano_at n la lo =
     \<lparr>vnum = 0, vName = Some n, country = None, subregion = [], latitude = la, longitude = lo,
      elevation_m = 0, obsAbbr = None, webpage = None\<rparr>"

definition world_of :: "FeatureCollection Response option \<Rightarrow> Volcano list Response option \<Rightarrow> World" where
  "world_of q v = \<lparr>seismic = (\<lambda>u. q), volcanoes = v\<rparr>"

definition ok_response :: "'a \<Rightarrow> 'a Response option" where
  "ok_response v = Some \<lparr>ok = True, status = 200, json = Some v\<rparr>"

definition failed_response :: "nat \<Rightarrow> 'a Response option" where
  "failed_response code = Some \<lparr>ok = False, status = code, json = None\<rparr>"

definition quake_of :: "string \<Rightarrow> real option \<Rightarrow> Feature" where
  "quake_of i m =
     \<lparr>fid = i,
      properties = \<lparr>mag = m, magType = ''mb'', place = [], time = 0, tsunami = 0, alert = None,
                    sig = None, felt = None, url = []\<rparr>,
      coordinates = [0, 0, 10]\<rparr>"

definition volcano_in :: "string option \<Rightarrow> string option \<Rightarrow> Volcano" where
  "volcano_in n c =
     \<lparr>vnum = 0, vName = n, country = c, subregion = [], latitude = 0, longitude = 0,
      elevation_m = 0, obsAbbr = None, webpage = None\<rparr>"

section \<open>The risk classifier\<close>

text \<open>
  C2. On every count of significant quakes the classifier returns HIGH exactly above 10,
  MODERATE exactly from 4 to 10, LOW exactly from 1 to 3 and MINIMAL exactly at 0; a
  larger count never gives a lower level.
\<close>

theorem riskLevel_thresholds:
  "(riskLevel n = HIGH \<longleftrightarrow> n > 10) \<and>
   (riskLevel n = MODERATE \<longleftrightarrow> 3 < n \<and> n \<le> 10) \<and>
   (riskLevel n = LOW \<longleftrightarrow> 0 < n \<and> n \<le> 3) \<and>
   (riskLevel n = MINIMAL \<longleftrightarrow> n = 0) \<and>
   (\<forall>m. m \<le> n \<longrightarrow> level_rank (riskLevel m) \<le> level_rank (riskLevel n))"
  by (simp add: riskLevel_def)

theorem riskLevel_thresholds_witness:
  "riskLevel 11 = HIGH \<and> riskLevel 4 = MODERATE \<and> riskLevel 3 = LOW \<and> riskLevel 0 = MINIMAL \<and>
   (3::nat) \<le> 11 \<and> level_rank (riskLevel 3) \<le> level_rank (riskLevel 11)"
  using riskLevel_thresholds [of 11] riskLevel_thresholds [of 4] riskLevel_thresholds [of 3]
    riskLevel_thresholds [of 0]
  by simp

section \<open>The volcano filter of the report\<close>

lemma haversine_exact_equator:
  assumes "0 \<le> lon" "lon \<le> 180"
  shows "haversine exact_engine 0 0 0 lon = Some (6371 * (lon * pi / 180))"
proof -
  define t where "t = lon * pi / 180"
  have t: "0 \<le> t" "t \<le> pi" using assms by (simp_all add: t_def)
  have s: "0 \<le> sin (t / 2)" using t by (simp add: sin_ge_zero)
  have c: "0 \<le> cos (t / 2)" using t by (simp add: cos_ge_zero)
  have one: "1 - sin (t / 2) * sin (t / 2) = (cos (t / 2))\<^sup>2"
    using cos_squared_eq [of "t / 2"] by (simp add: power2_eq_square)
  have sq: "sqrt (sin (t / 2) * sin (t / 2)) = sin (t / 2)"
    using s by simp
  have r: "haversine exact_engine 0 0 0 lon = Some (6371 * 2 * atan2_exact (sin (t / 2)) (cos (t / 2)))"
    using s c
    by (simp add: haversine_def toRad_def exact_engine_def Math_sqrt_def Let_def t_def [symmetric]
        one sq not_less)
  have "haversine exact_engine 0 0 0 lon = Some (6371 * t)"
  proof (cases "t = pi")
    case True
    then show ?thesis using r by (simp add: atan2_exact_def)
  next
    case False
    then have lt: "t / 2 < pi / 2" "- (pi / 2) < t / 2" using t by simp_all
    then have "0 < cos (t / 2)" by (simp add: cos_gt_zero_pi)
    moreover have "arctan (sin (t / 2) / cos (t / 2)) = t / 2"
      using arctan_tan [OF lt(2) lt(1)] by (simp add: tan_def)
    ultimately show ?thesis using r by (simp add: atan2_exact_def)
  qed
  then show ?thesis by (simp only: t_def)
qed

lemma distanceKm_with_distanceKm: "distanceKm (with_distanceKm v d) = d"
  by (simp add: with_distanceKm_def Volcano.defs RankedVolcano.defs)

lemma insort_cmp_insort_key:
  assumes "k x \<noteq> None" "\<forall>y\<in>set ys. k y \<noteq> None"
  shows "insort_cmp (\<lambda>a b. num_sub (k a) (k b)) x ys = insort_key (\<lambda>v. the (k v)) x ys"
  using assms by (induction ys) (auto simp: num_sub_def)

lemma Array_sort_sort_key:
  assumes "\<forall>y\<in>set xs. k y \<noteq> None"
  shows "Array_sort (\<lambda>a b. num_sub (k a) (k b)) xs = sort_key (\<lambda>v. the (k v)) xs"
  using assms
proof (induction xs)
  case Nil
  then show ?case by (simp add: Array_sort_def)
next
  case (Cons x xs)
  then have ih: "Array_sort (\<lambda>a b. num_sub (k a) (k b)) xs = sort_key (\<lambda>v. the (k v)) xs"
    by simp
  have "\<forall>y\<in>set (sort_key (\<lambda>v. the (k v)) xs). k y \<noteq> None"
    using Cons.prems by simp
  with Cons.prems ih show ?case
    by (simp add: Array_sort_def insort_cmp_insort_key)
qed

lemma filter_take_prefix: "\<exists>n. filter P (take m xs) = take n (filter P xs)"
proof (induction xs arbitrary: m)
  case Nil
  then show ?case by simp
next
  case (Cons x xs)
  show ?case
  proof (cases m)
    case 0
    then have "filter P (take m (x # xs)) = take 0 (filter P (x # xs))" by simp
    then show ?thesis by blast
  next
    case (Suc m')
    obtain n where n: "filter P (take m' xs) = take n (filter P xs)"
      using Cons.IH by blast
    show ?thesis
    proof (cases "P x")
      case True
      then have "filter P (take m (x # xs)) = take (Suc n) (filter P (x # xs))"
        using Suc n by simp
      then show ?thesis by blast
    next
      case False
      then have "filter P (take m (x # xs)) = take n (filter P (x # xs))"
        using Suc n by simp
      then show ?thesis by blast
    qed
  qed
qed

lemma filter_map_with_distanceKm:
  "filter (\<lambda>v. distanceKm v = Some d) (map (\<lambda>v. with_distanceKm v (g v)) xs) =
   map (\<lambda>v. with_distanceKm v (Some d)) (filter (\<lambda>v. g v = Some d) xs)"
  by (induction xs) (auto simp: distanceKm_with_distanceKm)

lemma rankVolcanoes_props:
  fixes e :: Engine and vs :: "Volcano list" and lat lon radius :: real and limit :: nat
  defines "dst \<equiv> (\<lambda>v::Volcano. haversine e lat lon (latitude v) (longitude v))"
  defines "out \<equiv> rankVolcanoes e limit vs lat lon radius"
  shows "(\<forall>v\<in>set out. \<exists>d. distanceKm v = Some d \<and> d \<le> radius)"
    and "sorted_wrt (\<lambda>a b. \<exists>x y. distanceKm a = Some x \<and> distanceKm b = Some y \<and> x \<le> y) out"
    and "length out \<le> limit"
    and "length out \<le> length (filter (\<lambda>v. num_le (dst v) radius) vs)"
    and "\<exists>n. filter (\<lambda>v. distanceKm v = Some d) out =
              take n (map (\<lambda>v. with_distanceKm v (Some d)) (filter (\<lambda>v. dst v = Some d) vs))"
    and "\<forall>v\<in>set out. \<exists>u\<in>set vs. v = with_distanceKm u (dst u)"
proof -
  define mapped where "mapped = map (\<lambda>v. with_distanceKm v (dst v)) vs"
  define kept where "kept = filter (\<lambda>v. num_le (distanceKm v) radius) mapped"
  define f where "f = (\<lambda>v::RankedVolcano. the (distanceKm v))"
  define srt where "srt = sort_key f kept"
  have kept_some: "\<forall>v\<in>set kept. \<exists>d. distanceKm v = Some d \<and> d \<le> radius"
    by (auto simp: kept_def num_le_def split: option.splits)
  then have "\<forall>v\<in>set kept. distanceKm v \<noteq> None" by auto
  then have "Array_sort (\<lambda>a b. num_sub (distanceKm a) (distanceKm b)) kept = srt"
    unfolding srt_def f_def by (rule Array_sort_sort_key)
  then have out: "out = take limit srt"
    by (simp add: out_def rankVolcanoes_def kept_def mapped_def dst_def)
  have set_srt: "set srt = set kept" by (simp add: srt_def)
  have sub: "set out \<subseteq> set kept"
    using set_take_subset [of limit srt] by (simp add: out set_srt)
  show in_radius: "\<forall>v\<in>set out. \<exists>d. distanceKm v = Some d \<and> d \<le> radius"
    using kept_some sub by blast
  have "sorted (map f srt)" by (simp add: srt_def)
  then have "sorted_wrt (\<lambda>a b. f a \<le> f b) srt" by (simp add: sorted_map)
  then have "sorted_wrt (\<lambda>a b. f a \<le> f b) out"
    unfolding out by (rule sorted_wrt_take)
  then show "sorted_wrt (\<lambda>a b. \<exists>x y. distanceKm a = Some x \<and> distanceKm b = Some y \<and> x \<le> y) out"
  proof (rule sorted_wrt_mono_rel [rotated])
    fix a b
    assume ab: "a \<in> set out" "b \<in> set out" and le: "f a \<le> f b"
    from in_radius ab obtain x y where "distanceKm a = Some x" "distanceKm b = Some y"
      by blast
    with le show "\<exists>x y. distanceKm a = Some x \<and> distanceKm b = Some y \<and> x \<le> y"
      by (simp add: f_def)
  qed
  show "length out \<le> limit" by (simp add: out)
  have "set kept \<subseteq> set mapped" by (auto simp: kept_def)
  with sub have "set out \<subseteq> set mapped" by blast
  then show "\<forall>v\<in>set out. \<exists>u\<in>set vs. v = with_distanceKm u (dst u)"
    by (auto simp: mapped_def)
  have "length kept = length (filter (\<lambda>v. num_le (dst v) radius) vs)"
    by (simp add: kept_def mapped_def filter_map o_def distanceKm_with_distanceKm)
  moreover have "length out \<le> length kept" by (simp add: out srt_def)
  ultimately show "length out \<le> length (filter (\<lambda>v. num_le (dst v) radius) vs)" by simp
  let ?P = "\<lambda>v. distanceKm v = Some d"
  let ?orig = "map (\<lambda>v. with_distanceKm v (Some d)) (filter (\<lambda>v. dst v = Some d) vs)"
  have orig: "filter ?P mapped = ?orig"
    unfolding mapped_def by (rule filter_map_with_distanceKm)
  have "filter ?P srt = filter (\<lambda>v. f v = d) srt"
    using kept_some by (intro filter_cong) (auto simp: set_srt f_def)
  also have "\<dots> = filter (\<lambda>v. f v = d) kept"
    unfolding srt_def by (rule sort_key_stable)
  also have "\<dots> = filter ?P kept"
    using kept_some by (intro filter_cong) (auto simp: f_def)
  finally have stable: "filter ?P srt = filter ?P kept" .
  show "\<exists>n. filter ?P out = take n ?orig"
  proof (cases "d \<le> radius")
    case True
    have "filter ?P kept = filter ?P mapped"
      unfolding kept_def using True by (auto simp: num_le_def intro: filter_cong)
    with stable orig have "filter ?P srt = ?orig" by simp
    then show ?thesis
      using filter_take_prefix [of ?P limit srt] by (simp add: out)
  next
    case False
    then have "filter ?P out = []"
      using in_radius by (auto simp: filter_empty_conv)
    then have "filter ?P out = take 0 ?orig" by simp
    then show ?thesis by blast
  qed
qed

lemma rankVolcanoes_example:
  "rankVolcanoes exact_engine 20 [volcano_at ''C'' 0 180, volcano_at ''B'' 0 60, volcano_at ''A'' 0 0,
        volcano_at ''A2'' 0 0] 0 0 10000 =
   [with_distanceKm (volcano_at ''A'' 0 0) (Some 0), with_distanceKm (volcano_at ''A2'' 0 0) (Some 0),
    with_distanceKm (volcano_at ''B'' 0 60) (Some (6371 * pi / 3))]"
proof -
  have pi_bounds: "\<not> 6371 * pi \<le> 10000" "6371 * pi \<le> 30000" "\<not> pi \<le> 0"
    using pi_ge_two pi_less_4 by simp_all
  have loc: "latitude (volcano_at n la lo) = la" "longitude (volcano_at n la lo) = lo" for n la lo
    by (simp_all add: volcano_at_def)
  have d: "haversine exact_engine 0 0 0 0 = Some 0"
    "haversine exact_engine 0 0 0 60 = Some (6371 * pi / 3)"
    "haversine exact_engine 0 0 0 180 = Some (6371 * pi)"
    by (simp_all add: haversine_exact_equator)
  show ?thesis
    by (simp add: rankVolcanoes_def loc d
        num_le_def pi_bounds Array_sort_def distanceKm_with_distanceKm num_sub_def)
qed

text \<open>
  C1. Whatever the engine computes, for every volcano list, centre, radius and bound,
  each record of the ranked output is an input record with its computed distance, and
  that distance is a number no greater than the radius (the boundary included). The output is in non-decreasing order of
  distance; the records at one distance keep the order they had in the input; the output
  is no longer than the bound and no longer than the number of records within the radius.
  The report uses the bound 20.
\<close>

theorem rankVolcanoes_ranked:
  fixes e :: Engine and vs :: "Volcano list" and lat lon radius :: real and limit :: nat
  shows
    "(\<forall>v\<in>set (rankVolcanoes e limit vs lat lon radius).
        (\<exists>u\<in>set vs. v = with_distanceKm u (haversine e lat lon (latitude u) (longitude u))) \<and>
        (\<exists>d. distanceKm v = Some d \<and> d \<le> radius)) \<and>
     sorted_wrt (\<lambda>a b. \<exists>x y. distanceKm a = Some x \<and> distanceKm b = Some y \<and> x \<le> y)
       (rankVolcanoes e limit vs lat lon radius) \<and>
     (\<forall>d. \<exists>n. filter (\<lambda>v. distanceKm v = Some d) (rankVolcanoes e limit vs lat lon radius) =
        take n (map (\<lambda>v. with_distanceKm v (Some d))
                  (filter (\<lambda>v. haversine e lat lon (latitude v) (longitude v) = Some d) vs))) \<and>
     length (rankVolcanoes e limit vs lat lon radius) \<le> limit \<and>
     length (rankVolcanoes e limit vs lat lon radius) \<le>
       length (filter (\<lambda>v. num_le (haversine e lat lon (latitude v) (longitude v)) radius) vs) \<and>
     nearbyVolcanoes e vs lat lon radius = rankVolcanoes e 20 vs lat lon radius"
proof -
  note p = rankVolcanoes_props [where e = e and limit = limit and vs = vs and lat = lat and lon = lon
      and radius = radius]
  have members: "\<forall>v\<in>set (rankVolcanoes e limit vs lat lon radius).
        (\<exists>u\<in>set vs. v = with_distanceKm u (haversine e lat lon (latitude u) (longitude u))) \<and>
        (\<exists>d. distanceKm v = Some d \<and> d \<le> radius)"
    using p(1) p(6) by blast
  have ties: "\<forall>d. \<exists>n. filter (\<lambda>v. distanceKm v = Some d) (rankVolcanoes e limit vs lat lon radius) =
        take n (map (\<lambda>v. with_distanceKm v (Some d))
                  (filter (\<lambda>v. haversine e lat lon (latitude v) (longitude v) = Some d) vs))"
    by (intro allI) (rule p(5))
  show ?thesis
    using members p(2) ties p(3) p(4) by (simp only: nearbyVolcanoes_def simp_thms)
qed

theorem rankVolcanoes_ranked_witness:
  "nearbyVolcanoes exact_engine [volcano_at ''C'' 0 180, volcano_at ''B'' 0 60, volcano_at ''A'' 0 0,
        volcano_at ''A2'' 0 0] 0 0 10000 =
     [with_distanceKm (volcano_at ''A'' 0 0) (Some 0), with_distanceKm (volcano_at ''A2'' 0 0) (Some 0),
      with_distanceKm (volcano_at ''B'' 0 60) (Some (6371 * pi / 3))] \<and>
   distanceKm (with_distanceKm (volcano_at ''B'' 0 60) (Some (6371 * pi / 3))) = Some (6371 * pi / 3) \<and>
   6371 * pi / 3 \<le> 10000 \<and>
   length [with_distanceKm (volcano_at ''A'' 0 0) (Some 0), with_distanceKm (volcano_at ''A2'' 0 0) (Some 0),
      with_distanceKm (volcano_at ''B'' 0 60) (Some (6371 * pi / 3))] \<le> 20"
proof -
  let ?vs = "[volcano_at ''C'' 0 180, volcano_at ''B'' 0 60, volcano_at ''A'' 0 0, volcano_at ''A2'' 0 0]"
  let ?b = "with_distanceKm (volcano_at ''B'' 0 60) (Some (6371 * pi / 3))"
  note ranked = rankVolcanoes_ranked [of exact_engine 20 ?vs 0 0 10000]
  from ranked have near: "nearbyVolcanoes exact_engine ?vs 0 0 10000 = rankVolcanoes exact_engine 20 ?vs 0 0 10000"
    by blast
  from ranked have len: "length (rankVolcanoes exact_engine 20 ?vs 0 0 10000) \<le> 20"
    by blast
  from ranked have "\<forall>v\<in>set (rankVolcanoes exact_engine 20 ?vs 0 0 10000). \<exists>d. distanceKm v = Some d \<and> d \<le> 10000"
    by blast
  then obtain d where "distanceKm ?b = Some d" "d \<le> 10000"
    by (auto simp: rankVolcanoes_example)
  then have b: "6371 * pi / 3 \<le> 10000"
    by (auto simp: distanceKm_with_distanceKm)
  show ?thesis
    using near len b by (simp add: rankVolcanoes_example distanceKm_with_distanceKm)
qed

section \<open>The report\<close>

lemma fetchJSON_ok: "fetchJSON (ok_response v) = Inr v"
  by (simp add: fetchJSON_def ok_response_def)

lemma fetchJSON_failed: "fetchJSON (failed_response code) = Inl (ApiError code)"
  by (simp add: fetchJSON_def failed_response_def)

lemma fetchJSON_not_ok: "fetched = Some r \<Longrightarrow> \<not> ok r \<Longrightarrow> fetchJSON fetched = Inl (ApiError (status r))"
  by (simp add: fetchJSON_def)

text \<open>
  C3. If either upstream answers the report with a non-success status, the report returns
  no output: its result is the failure of one of the two fetches.
\<close>

theorem report_fails_with_a_failed_fetch:
  assumes "(\<exists>r. seismic world (earthquakeUrl now inp) = Some r \<and> \<not> ok r) \<or>
           (\<exists>r. volcanoes world = Some r \<and> \<not> ok r)"
  shows "\<exists>e. report eng world seismic_first now inp = Inl e \<and>
             (fetchJSON (seismic world (earthquakeUrl now inp)) = Inl e \<or>
              fetchJSON (volcanoes world) = Inl e)"
proof -
  from assms have "(\<exists>e. fetchJSON (seismic world (earthquakeUrl now inp)) = Inl e) \<or>
                   (\<exists>e. fetchJSON (volcanoes world) = Inl e)"
    by (auto simp: fetchJSON_not_ok)
  then show ?thesis
    by (auto simp: report_def Promise_all_def split: sum.splits)
qed

theorem report_fails_with_a_failed_fetch_witness:
  "report exact_engine (world_of (ok_response \<lparr>metadata_count = 0, features = []\<rparr>) (failed_response 503))
      True 0 \<lparr>r_latitude = 0, r_longitude = 0, r_radiusKm = 300\<rparr> = Inl (ApiError 503)"
proof -
  let ?w = "world_of (ok_response \<lparr>metadata_count = 0, features = []\<rparr>) (failed_response 503)"
  let ?inp = "\<lparr>r_latitude = 0, r_longitude = 0, r_radiusKm = 300\<rparr>"
  have v: "volcanoes ?w = Some \<lparr>ok = False, status = 503, json = None\<rparr>"
    by (simp add: world_of_def failed_response_def)
  have "(\<exists>r. seismic ?w (earthquakeUrl 0 ?inp) = Some r \<and> \<not> ok r) \<or>
        (\<exists>r. volcanoes ?w = Some r \<and> \<not> ok r)"
    using v by simp
  from report_fails_with_a_failed_fetch [OF this, where eng = exact_engine and seismic_first = True]
  obtain e where "report exact_engine ?w True 0 ?inp = Inl e"
    "fetchJSON (seismic ?w (earthquakeUrl 0 ?inp)) = Inl e \<or> fetchJSON (volcanoes ?w) = Inl e"
    by blast
  then show ?thesis
    by (auto simp: world_of_def fetchJSON_ok fetchJSON_failed)
qed

lemma nearbyVolcanoes_example:
  "nearbyVolcanoes exact_engine [volcano_at ''A'' 0 0, volcano_at ''C'' 0 180] 0 0 300 =
     [with_distanceKm (volcano_at ''A'' 0 0) (Some 0)]"
proof -
  have pi_bounds: "\<not> 6371 * pi \<le> 300"
    using pi_ge_two by simp
  have loc: "latitude (volcano_at n la lo) = la" "longitude (volcano_at n la lo) = lo" for n la lo
    by (simp_all add: volcano_at_def)
  have d: "haversine exact_engine 0 0 0 0 = Some 0"
    "haversine exact_engine 0 0 0 180 = Some (6371 * pi)"
    by (simp_all add: haversine_exact_equator)
  show ?thesis
    by (simp add: nearbyVolcanoes_def rankVolcanoes_def loc d num_le_def pi_bounds Array_sort_def
        distanceKm_with_distanceKm)
qed

text \<open>
  C10. In a successful report the count of nearby volcanoes in the risk assessment is the
  length of the list of nearby volcanoes of the same response, and the count of
  significant quakes is the number of events of magnitude 4 or more among the events
  the seismic source returned (an event with no magnitude is not counted).
\<close>

theorem report_counts:
  assumes "report eng world seismic_first now inp = Inr out"
  shows "ra_nearbyVolcanoes (out_riskAssessment out) = length (out_nearbyVolcanoes out) \<and>
         (\<exists>earthquakeData. fetchJSON (seismic world (earthquakeUrl now inp)) = Inr earthquakeData \<and>
            ra_significantQuakes (out_riskAssessment out) =
              length (filter (\<lambda>f. \<exists>m. mag (properties f) = Some m \<and> 4 \<le> m) (features earthquakeData)))"
proof -
  have eq: "num_ge (mag (properties f)) 4 \<longleftrightarrow> (\<exists>m. mag (properties f) = Some m \<and> 4 \<le> m)" for f :: Feature
    by (simp add: num_ge_def split: option.splits)
  from assms show ?thesis
    by (auto simp: report_def Promise_all_def significantQuakes_def eq Let_def split: sum.splits)
qed

theorem report_counts_witness:
  "\<exists>out. report exact_engine (world_of
             (ok_response \<lparr>metadata_count = 4,
                features = [quake_of ''a'' (Some 5), quake_of ''b'' (Some 3), quake_of ''c'' None,
                            quake_of ''d'' (Some 4)]\<rparr>)
             (ok_response [volcano_at ''A'' 0 0, volcano_at ''C'' 0 180]))
           True 0 \<lparr>r_latitude = 0, r_longitude = 0, r_radiusKm = 300\<rparr> = Inr out \<and>
         ra_nearbyVolcanoes (out_riskAssessment out) = 1 \<and> length (out_nearbyVolcanoes out) = 1 \<and>
         ra_significantQuakes (out_riskAssessment out) = 2 \<and>
         ra_level (out_riskAssessment out) = LOW"
proof -
  let ?fc = "\<lparr>metadata_count = 4,
                features = [quake_of ''a'' (Some 5), quake_of ''b'' (Some 3), quake_of ''c'' None,
                            quake_of ''d'' (Some 4)]\<rparr>"
  let ?w = "world_of (ok_response ?fc) (ok_response [volcano_at ''A'' 0 0, volcano_at ''C'' 0 180])"
  let ?inp = "\<lparr>r_latitude = 0, r_longitude = 0, r_radiusKm = 300\<rparr>"
  have "\<exists>out. report exact_engine ?w True 0 ?inp = Inr out \<and> ra_level (out_riskAssessment out) = LOW \<and>
          length (out_nearbyVolcanoes out) = 1"
    by (simp add: report_def world_of_def fetchJSON_ok Promise_all_def nearbyVolcanoes_example
        significantQuakes_def quake_of_def num_ge_def riskLevel_def)
  then obtain out where out: "report exact_engine ?w True 0 ?inp = Inr out"
    "ra_level (out_riskAssessment out) = LOW" "length (out_nearbyVolcanoes out) = 1"
    by blast
  have fc: "fetchJSON (seismic ?w (earthquakeUrl 0 ?inp)) = Inr ?fc"
    by (simp add: world_of_def fetchJSON_ok)
  from report_counts [OF out(1)] fc out show ?thesis
    by (simp add: quake_of_def)
qed

section \<open>The outbound seismic queries\<close>



text \<open>
  C6. Whatever the engine computes, the query of search carries each of the three spatial
  parameters exactly when both latitude and longitude are supplied; with only one of them
  it carries none.
\<close>

theorem search_url_spatial:
  "(has_param (search_url e now inp) ''latitude'' \<longleftrightarrow> s_latitude inp \<noteq> None \<and> s_longitude inp \<noteq> None) \<and>
   (has_param (search_url e now inp) ''longitude'' \<longleftrightarrow> s_latitude inp \<noteq> None \<and> s_longitude inp \<noteq> None) \<and>
   (has_param (search_url e now inp) ''maxradiuskm'' \<longleftrightarrow> s_latitude inp \<noteq> None \<and> s_longitude inp \<noteq> None)"
  by (simp add: has_param_def search_url_def Let_def)

theorem search_url_spatial_witness:
  "\<not> has_param (search_url exact_engine 0 \<lparr>s_latitude = Some 35, s_longitude = None, s_radiusKm = 500,
        s_minMagnitude = 4, s_maxMagnitude = None, s_days = 7, s_limit = 20\<rparr>) ''latitude'' \<and>
   \<not> has_param (search_url exact_engine 0 \<lparr>s_latitude = Some 35, s_longitude = None, s_radiusKm = 500,
        s_minMagnitude = 4, s_maxMagnitude = None, s_days = 7, s_limit = 20\<rparr>) ''maxradiuskm'' \<and>
   has_param (search_url exact_engine 0 \<lparr>s_latitude = Some 35, s_longitude = Some 139, s_radiusKm = 500,
        s_minMagnitude = 4, s_maxMagnitude = None, s_days = 7, s_limit = 20\<rparr>) ''maxradiuskm''"
  using search_url_spatial [of exact_engine 0 "\<lparr>s_latitude = Some 35, s_longitude = None, s_radiusKm = 500,
        s_minMagnitude = 4, s_maxMagnitude = None, s_days = 7, s_limit = 20\<rparr>"]
    search_url_spatial [of exact_engine 0 "\<lparr>s_latitude = Some 35, s_longitude = Some 139, s_radiusKm = 500,
        s_minMagnitude = 4, s_maxMagnitude = None, s_days = 7, s_limit = 20\<rparr>"]
  by simp

section \<open>The volcano search\<close>

lemma String_includes_iff: "String_includes s sub \<longleftrightarrow> (\<exists>pre post. s = pre @ sub @ post)"
proof (induction s)
  case Nil
  then show ?case by auto
next
  case (Cons c cs)
  have pre: "take (length sub) (c # cs) = sub \<longleftrightarrow> (\<exists>post. c # cs = sub @ post)"
    by (metis append_eq_conv_conj append_take_drop_id)
  have "(\<exists>pre post. c # cs = pre @ sub @ post) \<longleftrightarrow>
        (\<exists>post. c # cs = sub @ post) \<or> (\<exists>pre post. cs = pre @ sub @ post)"
    (is "?l \<longleftrightarrow> ?r")
  proof
    assume ?l
    then obtain pre post where e: "c # cs = pre @ sub @ post" by blast
    show ?r
    proof (cases pre)
      case Nil
      with e show ?thesis by auto
    next
      case (Cons p ps)
      with e have "cs = ps @ sub @ post" by simp
      then show ?thesis by blast
    qed
  next
    assume ?r
    then show ?l
    proof
      assume "\<exists>post. c # cs = sub @ post"
      then obtain post where "c # cs = [] @ sub @ post" by auto
      then show ?l by blast
    next
      assume "\<exists>pre post. cs = pre @ sub @ post"
      then obtain pre post where "c # cs = (c # pre) @ sub @ post" by auto
      then show ?l by blast
    qed
  qed
  with pre Cons.IH show ?case by simp
qed

lemma set_slice0: "set (slice0 e xs) \<subseteq> set xs"
  by (auto simp: slice0_def Let_def dest: in_set_takeD)

lemma field_includes_iff:
  "field_includes e field wanted \<longleftrightarrow>
     (\<exists>s pre post. field = Some s \<and> toLowerCase e s = pre @ toLowerCase e wanted @ post)"
  by (cases field) (auto simp: field_includes_def String_includes_iff)

lemma volcanoSearch_Inr:
  assumes "fetchJSON (volcanoes world) = Inr data"
  shows "volcanoSearch e world now inp =
    Inr \<lparr>totalMatches = length (filter (\<lambda>v.
             (truthy (vs_country inp) \<longrightarrow> field_includes e (country v) (the (vs_country inp))) \<and>
             (truthy (vs_name inp) \<longrightarrow> field_includes e (vName v) (the (vs_name inp)))) data),
          returned = length (slice0 (vs_limit inp) (filter (\<lambda>v.
             (truthy (vs_country inp) \<longrightarrow> field_includes e (country v) (the (vs_country inp))) \<and>
             (truthy (vs_name inp) \<longrightarrow> field_includes e (vName v) (the (vs_name inp)))) data)),
          searchParams = (vs_country inp, vs_name inp),
          volcanoes_found = map volcano_entry (slice0 (vs_limit inp) (filter (\<lambda>v.
             (truthy (vs_country inp) \<longrightarrow> field_includes e (country v) (the (vs_country inp))) \<and>
             (truthy (vs_name inp) \<longrightarrow> field_includes e (vName v) (the (vs_name inp)))) data)),
          vs_fetchedAt = now\<rparr>"
  using assms by (simp add: volcanoSearch_def Let_def)

lemma volcanoSearch_found:
  assumes "volcanoSearch e world now inp = Inr out" and "r \<in> set (volcanoes_found out)"
  shows "\<exists>data v. fetchJSON (volcanoes world) = Inr data \<and> v \<in> set data \<and> r = volcano_entry v \<and>
          (truthy (vs_country inp) \<longrightarrow> field_includes e (country v) (the (vs_country inp))) \<and>
          (truthy (vs_name inp) \<longrightarrow> field_includes e (vName v) (the (vs_name inp)))"
proof -
  from assms(1) obtain data where data: "fetchJSON (volcanoes world) = Inr data"
    by (auto simp: volcanoSearch_def split: sum.splits)
  let ?F = "filter (\<lambda>v.
             (truthy (vs_country inp) \<longrightarrow> field_includes e (country v) (the (vs_country inp))) \<and>
             (truthy (vs_name inp) \<longrightarrow> field_includes e (vName v) (the (vs_name inp)))) data"
  have "volcanoes_found (projr (volcanoSearch e world now inp)) =
          map volcano_entry (slice0 (vs_limit inp) ?F)"
    by (simp add: volcanoSearch_Inr [OF data])
  then have "volcanoes_found out = map volcano_entry (slice0 (vs_limit inp) ?F)"
    by (simp add: assms(1))
  with assms(2) have "r \<in> volcano_entry ` set (slice0 (vs_limit inp) ?F)"
    by (simp only: set_map)
  then obtain v where v: "v \<in> set (slice0 (vs_limit inp) ?F)" "r = volcano_entry v"
    by (rule imageE)
  have "v \<in> set ?F"
    by (rule subsetD [OF set_slice0 v(1)])
  then have "v \<in> set data \<and>
          (truthy (vs_country inp) \<longrightarrow> field_includes e (country v) (the (vs_country inp))) \<and>
          (truthy (vs_name inp) \<longrightarrow> field_includes e (vName v) (the (vs_name inp)))"
    by simp
  with data v(2) show ?thesis by (intro exI [of _ data] exI [of _ v]) simp
qed

lemma length_filter_mono:
  "(\<And>x. P x \<Longrightarrow> Q x) \<Longrightarrow> length (filter P xs) \<le> length (filter Q xs)"
  by (induction xs) auto

lemma fetchJSON_world_of: "fetchJSON (volcanoes (world_of q (ok_response data))) = Inr data"
  by (simp add: world_of_def fetchJSON_ok)

lemma slice0_20: "slice0 20 xs = take 20 xs"
  by (simp add: slice0_def js_trunc_def)

lemma field_includes_exact:
  "field_includes exact_engine field wanted =
     (case field of None \<Rightarrow> False | Some s \<Rightarrow> String_includes (lower_ascii s) (lower_ascii wanted))"
  by (cases field) (simp_all add: field_includes_def exact_engine_def)

lemma strings_JAP_fu:
  "String_includes (lower_ascii ''Japan'') (lower_ascii ''JAP'')"
  "String_includes (lower_ascii ''Fuji'') (lower_ascii ''fu'')"
  "\<not> String_includes (lower_ascii ''Italy'') (lower_ascii ''JAP'')"
  "String_includes (lower_ascii ''Japan'') (lower_ascii ''jap'')"
  "\<not> String_includes (lower_ascii ''Italy'') (lower_ascii ''jap'')"
  "String_includes (lower_ascii ''Fuji'') (lower_ascii ''fuji'')"
  by code_simp+

text \<open>
  C7, as the claim states it, fails when a supplied filter is the empty string: the
  handler skips an empty filter, and a record whose country is \<open>null\<close> is returned
  although it does not match the country predicate.
\<close>

theorem volcanoSearch_empty_country_returned:
  "volcanoSearch exact_engine (world_of None (ok_response [volcano_in (Some ''Fuji'') None])) 0
      \<lparr>vs_country = Some [], vs_name = Some ''fuji'', vs_limit = 20\<rparr> =
     Inr \<lparr>totalMatches = 1, returned = 1, searchParams = (Some [], Some ''fuji''),
          volcanoes_found = [volcano_entry (volcano_in (Some ''Fuji'') None)],
          vs_fetchedAt = 0\<rparr> \<and>
   \<not> field_includes exact_engine (ve_country (volcano_entry (volcano_in (Some ''Fuji'') None))) []"
  unfolding volcanoSearch_Inr [OF fetchJSON_world_of]
  by (simp add: truthy_def volcano_in_def volcano_entry_def field_includes_exact slice0_20
      strings_JAP_fu)

text \<open>
  C7, amended. Whatever the engine's case mapping, when both filters are supplied and
  neither is empty, every returned record
  has a country that contains the country filter and a name that contains the name
  filter, both compared in lower case.
\<close>

theorem volcanoSearch_both_filters:
  assumes "volcanoSearch e world now inp = Inr out"
    and "vs_country inp = Some c" and "c \<noteq> []"
    and "vs_name inp = Some n" and "n \<noteq> []"
  shows "\<forall>r\<in>set (volcanoes_found out).
           (\<exists>s pre post. ve_country r = Some s \<and> toLowerCase e s = pre @ toLowerCase e c @ post) \<and>
           (\<exists>s pre post. ve_name r = Some s \<and> toLowerCase e s = pre @ toLowerCase e n @ post)"
proof
  fix r assume "r \<in> set (volcanoes_found out)"
  from volcanoSearch_found [OF assms(1) this]
  obtain data v where v: "r = volcano_entry v"
    "truthy (vs_country inp) \<longrightarrow> field_includes e (country v) (the (vs_country inp))"
    "truthy (vs_name inp) \<longrightarrow> field_includes e (vName v) (the (vs_name inp))"
    by (elim exE conjE)
  from v(2) assms(2,3) have "field_includes e (country v) c" by (simp add: truthy_def)
  moreover from v(3) assms(4,5) have "field_includes e (vName v) n" by (simp add: truthy_def)
  moreover note v(1)
  ultimately have "field_includes e (ve_country r) c" "field_includes e (ve_name r) n"
    by (simp_all add: volcano_entry_def)
  then show "(\<exists>s pre post. ve_country r = Some s \<and> toLowerCase e s = pre @ toLowerCase e c @ post) \<and>
           (\<exists>s pre post. ve_name r = Some s \<and> toLowerCase e s = pre @ toLowerCase e n @ post)"
    by (simp only: field_includes_iff)
qed

theorem volcanoSearch_both_filters_witness:
  "volcanoSearch exact_engine (world_of None (ok_response [volcano_in (Some ''Fuji'') (Some ''Japan''),
        volcano_in (Some ''Fujiyama'') None, volcano_in (Some ''Etna'') (Some ''Italy'')])) 0
      \<lparr>vs_country = Some ''JAP'', vs_name = Some ''fu'', vs_limit = 20\<rparr> =
     Inr \<lparr>totalMatches = 1, returned = 1, searchParams = (Some ''JAP'', Some ''fu''),
          volcanoes_found = [volcano_entry (volcano_in (Some ''Fuji'') (Some ''Japan''))],
          vs_fetchedAt = 0\<rparr> \<and>
   (\<exists>s pre post. ve_country (volcano_entry (volcano_in (Some ''Fuji'') (Some ''Japan''))) = Some s \<and>
      toLowerCase exact_engine s = pre @ toLowerCase exact_engine ''JAP'' @ post) \<and>
   (\<exists>s pre post. ve_name (volcano_entry (volcano_in (Some ''Fuji'') (Some ''Japan''))) = Some s \<and>
      toLowerCase exact_engine s = pre @ toLowerCase exact_engine ''fu'' @ post)"
proof -
  let ?w = "world_of None (ok_response [volcano_in (Some ''Fuji'') (Some ''Japan''),
        volcano_in (Some ''Fujiyama'') None, volcano_in (Some ''Etna'') (Some ''Italy'')])"
  let ?inp = "\<lparr>vs_country = Some ''JAP'', vs_name = Some ''fu'', vs_limit = 20\<rparr>"
  let ?out = "\<lparr>totalMatches = 1, returned = 1, searchParams = (Some ''JAP'', Some ''fu''),
          volcanoes_found = [volcano_entry (volcano_in (Some ''Fuji'') (Some ''Japan''))],
          vs_fetchedAt = 0\<rparr>"
  have run: "volcanoSearch exact_engine ?w 0 ?inp = Inr ?out"
    unfolding volcanoSearch_Inr [OF fetchJSON_world_of]
    by (simp add: truthy_def volcano_in_def field_includes_exact slice0_20 strings_JAP_fu)
  have "\<forall>r\<in>set (volcanoes_found ?out).
           (\<exists>s pre post. ve_country r = Some s \<and> toLowerCase exact_engine s = pre @ toLowerCase exact_engine ''JAP'' @ post) \<and>
           (\<exists>s pre post. ve_name r = Some s \<and> toLowerCase exact_engine s = pre @ toLowerCase exact_engine ''fu'' @ post)"
    by (rule volcanoSearch_both_filters [OF run]) simp_all
  then show ?thesis using run by simp
qed

text \<open>
  C9, as the claim states it, fails when the supplied country filter is the empty string:
  the handler applies no country filter, and a record whose country is \<open>null\<close> is
  returned.
\<close>

theorem volcanoSearch_empty_country_keeps_null:
  "volcanoSearch exact_engine (world_of None (ok_response [volcano_in (Some ''Fuji'') None])) 0
      \<lparr>vs_country = Some [], vs_name = None, vs_limit = 20\<rparr> =
     Inr \<lparr>totalMatches = 1, returned = 1, searchParams = (Some [], None),
          volcanoes_found = [volcano_entry (volcano_in (Some ''Fuji'') None)],
          vs_fetchedAt = 0\<rparr> \<and>
   country (volcano_in (Some ''Fuji'') None) = None \<and>
   ve_country (volcano_entry (volcano_in (Some ''Fuji'') None)) = None"
  unfolding volcanoSearch_Inr [OF fetchJSON_world_of]
  by (simp add: truthy_def volcano_in_def volcano_entry_def slice0_20)

text \<open>
  C9, amended. Once the volcano list is fetched the search returns a result whatever the
  records hold. With a country filter that is supplied and not empty, no returned record
  has a \<open>null\<close> or missing country, and such records are not counted among the
  matches; the same holds for the name filter and the name.
\<close>

theorem volcanoSearch_null_fields:
  assumes "fetchJSON (volcanoes world) = Inr data"
  shows "\<exists>out. volcanoSearch e world now inp = Inr out \<and>
     (\<forall>c. vs_country inp = Some c \<and> c \<noteq> [] \<longrightarrow>
        (\<forall>r\<in>set (volcanoes_found out). ve_country r \<noteq> None) \<and>
        totalMatches out \<le> length (filter (\<lambda>v. country v \<noteq> None) data)) \<and>
     (\<forall>n. vs_name inp = Some n \<and> n \<noteq> [] \<longrightarrow>
        (\<forall>r\<in>set (volcanoes_found out). ve_name r \<noteq> None) \<and>
        totalMatches out \<le> length (filter (\<lambda>v. vName v \<noteq> None) data))"
proof -
  define P where "P = (\<lambda>v::Volcano.
     (truthy (vs_country inp) \<longrightarrow> field_includes e (country v) (the (vs_country inp))) \<and>
     (truthy (vs_name inp) \<longrightarrow> field_includes e (vName v) (the (vs_name inp))))"
  define out where "out =
     \<lparr>totalMatches = length (filter P data),
      returned = length (slice0 (vs_limit inp) (filter P data)),
      searchParams = (vs_country inp, vs_name inp),
      volcanoes_found = map volcano_entry (slice0 (vs_limit inp) (filter P data)),
      vs_fetchedAt = now\<rparr>"
  have out: "volcanoSearch e world now inp = Inr out"
    unfolding out_def P_def by (rule volcanoSearch_Inr [OF assms])
  have total: "totalMatches out = length (filter P data)"
    by (simp add: out_def)
  have found: "\<exists>v. r = volcano_entry v \<and> P v" if "r \<in> set (volcanoes_found out)" for r
  proof -
    from that have "r \<in> volcano_entry ` set (slice0 (vs_limit inp) (filter P data))"
      by (simp add: out_def)
    then obtain v where v: "v \<in> set (slice0 (vs_limit inp) (filter P data))" "r = volcano_entry v"
      by (rule imageE)
    have "v \<in> set (filter P data)" by (rule subsetD [OF set_slice0 v(1)])
    then have "P v" by simp
    with v(2) show ?thesis by blast
  qed
  have c: "(\<forall>r\<in>set (volcanoes_found out). ve_country r \<noteq> None) \<and>
        totalMatches out \<le> length (filter (\<lambda>v. country v \<noteq> None) data)"
    if "vs_country inp = Some c \<and> c \<noteq> []" for c
  proof -
    have imp: "country v \<noteq> None" if "P v" for v
      using that \<open>vs_country inp = Some c \<and> c \<noteq> []\<close>
      by (auto simp: P_def truthy_def field_includes_def split: option.splits)
    have "ve_country r \<noteq> None" if "r \<in> set (volcanoes_found out)" for r
    proof -
      from found [OF that] obtain v where "r = volcano_entry v" "P v" by blast
      with imp [of v] show ?thesis by (simp add: volcano_entry_def)
    qed
    moreover have "length (filter P data) \<le> length (filter (\<lambda>v. country v \<noteq> None) data)"
      by (rule length_filter_mono) (rule imp)
    ultimately show ?thesis by (simp add: total)
  qed
  have n: "(\<forall>r\<in>set (volcanoes_found out). ve_name r \<noteq> None) \<and>
        totalMatches out \<le> length (filter (\<lambda>v. vName v \<noteq> None) data)"
    if "vs_name inp = Some n \<and> n \<noteq> []" for n
  proof -
    have imp: "vName v \<noteq> None" if "P v" for v
      using that \<open>vs_name inp = Some n \<and> n \<noteq> []\<close>
      by (auto simp: P_def truthy_def field_includes_def split: option.splits)
    have "ve_name r \<noteq> None" if "r \<in> set (volcanoes_found out)" for r
    proof -
      from found [OF that] obtain v where "r = volcano_entry v" "P v" by blast
      with imp [of v] show ?thesis by (simp add: volcano_entry_def)
    qed
    moreover have "length (filter P data) \<le> length (filter (\<lambda>v. vName v \<noteq> None) data)"
      by (rule length_filter_mono) (rule imp)
    ultimately show ?thesis by (simp add: total)
  qed
  from c have c': "\<forall>c. vs_country inp = Some c \<and> c \<noteq> [] \<longrightarrow>
        (\<forall>r\<in>set (volcanoes_found out). ve_country r \<noteq> None) \<and>
        totalMatches out \<le> length (filter (\<lambda>v. country v \<noteq> None) data)"
    by (intro allI impI)
  from n have n': "\<forall>n. vs_name inp = Some n \<and> n \<noteq> [] \<longrightarrow>
        (\<forall>r\<in>set (volcanoes_found out). ve_name r \<noteq> None) \<and>
        totalMatches out \<le> length (filter (\<lambda>v. vName v \<noteq> None) data)"
    by (intro allI impI)
  from out c' n' show ?thesis
    by (intro exI [of _ out] conjI)
qed

theorem volcanoSearch_null_fields_witness:
  "\<exists>out. volcanoSearch exact_engine (world_of None (ok_response [volcano_in (Some ''Fuji'') (Some ''Japan''),
              volcano_in (Some ''Fujiyama'') None, volcano_in (Some ''Etna'') (Some ''Italy'')])) 0
            \<lparr>vs_country = Some ''jap'', vs_name = None, vs_limit = 20\<rparr> = Inr out \<and>
         map ve_country (volcanoes_found out) = [Some ''Japan''] \<and>
         totalMatches out = 1 \<and>
         totalMatches out \<le> length (filter (\<lambda>v. country v \<noteq> None)
            [volcano_in (Some ''Fuji'') (Some ''Japan''), volcano_in (Some ''Fujiyama'') None,
             volcano_in (Some ''Etna'') (Some ''Italy'')])"
proof -
  let ?data = "[volcano_in (Some ''Fuji'') (Some ''Japan''), volcano_in (Some ''Fujiyama'') None,
      volcano_in (Some ''Etna'') (Some ''Italy'')]"
  let ?w = "world_of None (ok_response ?data)"
  let ?inp = "\<lparr>vs_country = Some ''jap'', vs_name = None, vs_limit = 20\<rparr>"
  have fetched: "fetchJSON (volcanoes ?w) = Inr ?data"
    by (simp add: world_of_def fetchJSON_ok)
  have run: "volcanoSearch exact_engine ?w 0 ?inp =
     Inr \<lparr>totalMatches = 1, returned = 1, searchParams = (Some ''jap'', None),
          volcanoes_found = [volcano_entry (volcano_in (Some ''Fuji'') (Some ''Japan''))],
          vs_fetchedAt = 0\<rparr>"
    unfolding volcanoSearch_Inr [OF fetchJSON_world_of]
    by (simp add: truthy_def volcano_in_def field_includes_exact slice0_20 strings_JAP_fu)
  from volcanoSearch_null_fields [OF fetched, of exact_engine 0 ?inp]
  obtain out where out: "volcanoSearch exact_engine ?w 0 ?inp = Inr out"
    and c: "\<forall>c. vs_country ?inp = Some c \<and> c \<noteq> [] \<longrightarrow>
        (\<forall>r\<in>set (volcanoes_found out). ve_country r \<noteq> None) \<and>
        totalMatches out \<le> length (filter (\<lambda>v. country v \<noteq> None) ?data)"
    by blast
  from c have le: "totalMatches out \<le> length (filter (\<lambda>v. country v \<noteq> None) ?data)"
    by simp
  from out run have "out = \<lparr>totalMatches = 1, returned = 1, searchParams = (Some ''jap'', None),
          volcanoes_found = [volcano_entry (volcano_in (Some ''Fuji'') (Some ''Japan''))],
          vs_fetchedAt = 0\<rparr>"
    by simp
  then have "map ve_country (volcanoes_found out) = [Some ''Japan'']" "totalMatches out = 1"
    by (simp_all add: volcano_entry_def volcano_in_def)
  with out le show ?thesis by (intro exI [of _ out] conjI)
qed

end
